theory Spec2Isabelle
  imports Complex_Main "HOL-Library.Stream"
begin

section \<open>The number game of NumberGame.py\<close>

text \<open>
  A shallow embedding of \<^verbatim>\<open>src/NumberGame.py\<close>. Python integers are unbounded, so every
  integer of the program is an \<^typ>\<open>int\<close>; Python's \<^verbatim>\<open>%\<close> with a positive divisor is
  the floor remainder, which is \<open>mod\<close> on \<^typ>\<open>int\<close>.
\<close>

subsection \<open>Players\<close>

text \<open>
  The four classes of the source. An object of a class is its \<^verbatim>\<open>name\<close> attribute together
  with the class, which decides the \<^verbatim>\<open>move\<close> method that runs.
\<close>

datatype player_class = Player | RandomPlayer | UserPlayer | StrategicPlayer

record player =
  name :: string
  cls :: player_class

subsection \<open>The outside world\<close>

text \<open>
  What a call of \<^verbatim>\<open>int(input(...))\<close> can meet: a line that \<^verbatim>\<open>int\<close> parses, a line
  that it rejects (\<^verbatim>\<open>ValueError\<close>), or the end of the input (\<^verbatim>\<open>EOFError\<close>).
\<close>

datatype line = Parses int | Malformed | EndOfInput

text \<open>
  What the program writes: the prompt of \<^verbatim>\<open>input\<close> and the three \<^verbatim>\<open>print\<close> calls. The
  rendering of the f-strings into characters is not modelled; an event keeps the values
  the f-string interpolates.
\<close>

datatype event =
    Prompt int int
  | InvalidMove
  | Moves string int
  | TotalIsNow int

text \<open>
  The standard input is a stream of lines, so that a user who never types a legal move is
  a run of the program. The random source is a stream of raw draws; \<^verbatim>\<open>random.randint\<close>
  reduces a draw into the range it is asked for.
\<close>

record world =
  stdin :: "line stream"
  rng :: "nat stream"
  stdout :: "event list"

datatype error = NotImplementedError | ValueError | EOFError | ZeroDivisionError

subsection \<open>The move methods\<close>

text \<open>\<^verbatim>\<open>Player.move\<close>: the abstract method raises.\<close>

definition Player_move :: "int \<Rightarrow> int \<Rightarrow> int \<Rightarrow> int \<Rightarrow> world \<Rightarrow> (error + int) \<times> world" where
  "Player_move current min_step max_step goal w = (Inl NotImplementedError, w)"

text \<open>
  \<^verbatim>\<open>RandomPlayer.move\<close>: \<^verbatim>\<open>random.randint(a, b)\<close> is \<^verbatim>\<open>randrange(a, b + 1)\<close>, which raises
  \<^verbatim>\<open>ValueError\<close> on an empty range and otherwise returns \<^verbatim>\<open>a\<close> plus a number below the
  width \<^verbatim>\<open>b + 1 - a\<close>.
\<close>

definition RandomPlayer_move :: "int \<Rightarrow> int \<Rightarrow> int \<Rightarrow> int \<Rightarrow> world \<Rightarrow> (error + int) \<times> world" where
  "RandomPlayer_move current min_step max_step goal w =
     (if max_step < min_step then (Inl ValueError, w)
      else (Inr (min_step + int (shd (rng w) mod nat (max_step + 1 - min_step))),
            w\<lparr>rng := stl (rng w)\<rparr>))"

text \<open>
  \<^verbatim>\<open>UserPlayer.move\<close>: the \<^verbatim>\<open>while True\<close> loop. It may run forever, so the result is an
  option and \<open>None\<close> is the run that never returns.
\<close>

partial_function (option) UserPlayer_move ::
  "int \<Rightarrow> int \<Rightarrow> int \<Rightarrow> int \<Rightarrow> world \<Rightarrow> ((error + int) \<times> world) option" where
  "UserPlayer_move current min_step max_step goal w =
     (let w1 = w\<lparr>stdout := stdout w @ [Prompt min_step max_step]\<rparr> in
      case shd (stdin w1) of
        EndOfInput \<Rightarrow> Some (Inl EOFError, w1)
      | Malformed \<Rightarrow> Some (Inl ValueError, w1\<lparr>stdin := stl (stdin w1)\<rparr>)
      | Parses mv \<Rightarrow>
          if min_step \<le> mv \<and> mv \<le> max_step
          then Some (Inr mv, w1\<lparr>stdin := stl (stdin w1)\<rparr>)
          else UserPlayer_move current min_step max_step goal
                 (w1\<lparr>stdin := stl (stdin w1), stdout := stdout w1 @ [InvalidMove]\<rparr>))"

text \<open>
  \<^verbatim>\<open>StrategicPlayer.move\<close>: it reads nothing but its arguments. Python's \<^verbatim>\<open>%\<close> raises
  \<^verbatim>\<open>ZeroDivisionError\<close> on a zero divisor, where \<open>mod\<close> of HOL returns the dividend, so
  the model tests the divisor first.
\<close>

definition StrategicPlayer_move :: "int \<Rightarrow> int \<Rightarrow> int \<Rightarrow> int \<Rightarrow> error + int" where
  "StrategicPlayer_move current min_step max_step goal =
     (let remaining = goal - current in
      if remaining \<ge> max_step then Inr max_step
      else if remaining < min_step then Inr min_step
      else if max_step + 1 = 0 then Inl ZeroDivisionError
      else Inr (remaining mod (max_step + 1)))"

text \<open>The method call \<^verbatim>\<open>next_player.move(...)\<close>: the object's class picks the method.\<close>

definition move ::
  "player \<Rightarrow> int \<Rightarrow> int \<Rightarrow> int \<Rightarrow> int \<Rightarrow> world \<Rightarrow> ((error + int) \<times> world) option" where
  "move p current min_step max_step goal w =
     (case cls p of
        Player \<Rightarrow> Some (Player_move current min_step max_step goal w)
      | RandomPlayer \<Rightarrow> Some (RandomPlayer_move current min_step max_step goal w)
      | UserPlayer \<Rightarrow> UserPlayer_move current min_step max_step goal w
      | StrategicPlayer \<Rightarrow> Some (StrategicPlayer_move current min_step max_step goal, w))"

subsection \<open>The game\<close>

record NumberGame =
  goal :: int
  min_step :: int
  max_step :: int
  current :: int
  players :: "player \<times> player"
  turn :: int

text \<open>
  \<^verbatim>\<open>NumberGame.__init__\<close>: six assignments and no check. The result is a sum so that a
  rejected construction could be told from a successful one; the source has no
  \<^verbatim>\<open>raise\<close>, so every branch is \<open>Inr\<close>.
\<close>

definition NumberGame_init :: "int \<Rightarrow> int \<Rightarrow> int \<Rightarrow> player \<times> player \<Rightarrow> error + NumberGame" where
  "NumberGame_init goal' min_step' max_step' players' =
     Inr \<lparr>goal = goal', min_step = min_step', max_step = max_step', current = 0,
          players = players', turn = 0\<rparr>"

text \<open>
  The precondition of \<^verbatim>\<open>__init__\<close> and third representation invariant of the class
  docstring: \<^verbatim>\<open>0 < min_step <= max_step <= goal\<close>.
\<close>

definition valid_config :: "int \<Rightarrow> int \<Rightarrow> int \<Rightarrow> bool" where
  "valid_config goal' min_step' max_step' \<longleftrightarrow>
     0 < min_step' \<and> min_step' \<le> max_step' \<and> max_step' \<le> goal'"

text \<open>\<^verbatim>\<open>NumberGame.whose_turn\<close>.\<close>

definition whose_turn :: "NumberGame \<Rightarrow> int \<Rightarrow> player" where
  "whose_turn g t = (if t mod 2 = 0 then fst (players g) else snd (players g))"

text \<open>
  \<^verbatim>\<open>NumberGame.play_one_turn\<close>. The object is mutated in place, so the model returns the
  object after the call together with the world; when \<^verbatim>\<open>move\<close> raises, the exception
  leaves the method before any assignment and the object is as it was.
\<close>

definition play_one_turn ::
  "NumberGame \<Rightarrow> world \<Rightarrow> ((error + unit) \<times> NumberGame \<times> world) option" where
  "play_one_turn g w =
     (let next_player = whose_turn g (turn g) in
      case move next_player (current g) (min_step g) (max_step g) (goal g) w of
        None \<Rightarrow> None
      | Some (Inl e, w1) \<Rightarrow> Some (Inl e, g, w1)
      | Some (Inr amount, w1) \<Rightarrow>
          (let g1 = g\<lparr>current := current g + amount\<rparr>;
               g2 = g1\<lparr>turn := turn g1 + 1\<rparr>
           in Some (Inr (), g2,
                    w1\<lparr>stdout := stdout w1 @
                       [Moves (name next_player) amount, TotalIsNow (current g2)]\<rparr>)))"

text \<open>
  The \<^verbatim>\<open>while self.current < self.goal\<close> loop of \<^verbatim>\<open>NumberGame.play\<close>. Nothing bounds the
  number of turns, so the loop is a partial function: \<open>None\<close> is the round that never
  ends.
\<close>

partial_function (option) play_loop ::
  "NumberGame \<Rightarrow> world \<Rightarrow> ((error + unit) \<times> NumberGame \<times> world) option" where
  "play_loop g w =
     (if current g < goal g
      then Option.bind (play_one_turn g w)
             (\<lambda>(r, g1, w1). case r of
                                Inl e \<Rightarrow> Some (Inl e, g1, w1)
                              | Inr u \<Rightarrow> play_loop g1 w1)
      else Some (Inr (), g, w))"

text \<open>\<^verbatim>\<open>NumberGame.play\<close>: the loop, then the name of the player of the turn before.\<close>

definition play ::
  "NumberGame \<Rightarrow> world \<Rightarrow> ((error + string) \<times> NumberGame \<times> world) option" where
  "play g w =
     (case play_loop g w of
        None \<Rightarrow> None
      | Some (Inl e, g1, w1) \<Rightarrow> Some (Inl e, g1, w1)
      | Some (Inr u, g1, w1) \<Rightarrow>
          (let winner = whose_turn g1 (turn g1 - 1) in Some (Inr (name winner), g1, w1)))"

subsection \<open>Notions the properties are stated with\<close>

text \<open>
  A player is deterministic when its \<^verbatim>\<open>move\<close> reads neither the input nor the random
  source: the classes \<^verbatim>\<open>Player\<close> and \<^verbatim>\<open>StrategicPlayer\<close>.
\<close>

definition deterministic :: "player \<Rightarrow> bool" where
  "deterministic p \<longleftrightarrow> cls p = Player \<or> cls p = StrategicPlayer"

text \<open>
  The turn-by-turn totals of a run: the values of the \<^verbatim>\<open>Total is now\<close> lines among what
  the run printed.
\<close>

fun totals :: "event list \<Rightarrow> int list" where
  "totals [] = []"
| "totals (TotalIsNow t # evs) = t # totals evs"
| "totals (e # evs) = totals evs"

text \<open>
  The turns of a round, one after the other: \<open>plays_to (g, w) (g', w')\<close> when the loop of
  \<^verbatim>\<open>play\<close>, started on the object \<open>g\<close> in the world \<open>w\<close>, comes to \<open>g'\<close> and \<open>w'\<close>
  after some number of turns, each of them played because the loop test
  \<^verbatim>\<open>self.current < self.goal\<close> held and each of them returned without an exception.
\<close>

inductive plays_to :: "NumberGame \<times> world \<Rightarrow> NumberGame \<times> world \<Rightarrow> bool" where
  here: "plays_to s s"
| turn: "current g < goal g \<Longrightarrow> play_one_turn g w = Some (Inr (), g1, w1) \<Longrightarrow>
         plays_to (g1, w1) s \<Longrightarrow> plays_to (g, w) s"

text \<open>
  Stated from the words of the claim it is compared with, not from the source: the
  simple strategy that returns what remains to the goal.
\<close>

definition remaining_move :: "int \<Rightarrow> int \<Rightarrow> int \<Rightarrow> int \<Rightarrow> error + int" where
  "remaining_move current' min_step' max_step' goal' = Inr (goal' - current')"

section \<open>Lemmas\<close>

subsection \<open>The strategic move\<close>

lemma StrategicPlayer_move_legal:
  assumes "0 < mn" and "mn \<le> mx"
  shows "\<exists>a. StrategicPlayer_move cur mn mx gl = Inr a \<and> mn \<le> a \<and> a \<le> mx"
  using assms by (auto simp: StrategicPlayer_move_def Let_def)

subsection \<open>One turn\<close>

lemma whose_turn_cases:
  "whose_turn g t = fst (players g) \<or> whose_turn g t = snd (players g)"
  by (simp add: whose_turn_def)

lemma play_one_turn_returns:
  assumes "play_one_turn g w = Some (Inr u, g', w')"
  shows "\<exists>amount w1.
           move (whose_turn g (turn g)) (current g) (min_step g) (max_step g) (goal g) w
             = Some (Inr amount, w1) \<and>
           g' = g\<lparr>current := current g + amount, turn := turn g + 1\<rparr> \<and>
           w' = w1\<lparr>stdout := stdout w1 @
                   [Moves (name (whose_turn g (turn g))) amount,
                    TotalIsNow (current g + amount)]\<rparr>"
  using assms
  by (auto simp: play_one_turn_def Let_def split: option.splits sum.splits)

lemma play_one_turn_raises:
  assumes "play_one_turn g w = Some (Inl e, g', w')"
  shows "g' = g \<and>
         move (whose_turn g (turn g)) (current g) (min_step g) (max_step g) (goal g) w
           = Some (Inl e, w')"
  using assms
  by (auto simp: play_one_turn_def Let_def split: option.splits sum.splits)

lemma play_one_turn_Strategic:
  assumes "cls (whose_turn g (turn g)) = StrategicPlayer"
    and "StrategicPlayer_move (current g) (min_step g) (max_step g) (goal g) = Inr a"
  shows "play_one_turn g w =
           Some (Inr (), g\<lparr>current := current g + a, turn := turn g + 1\<rparr>,
                 w\<lparr>stdout := stdout w @
                    [Moves (name (whose_turn g (turn g))) a, TotalIsNow (current g + a)]\<rparr>)"
  using assms by (simp add: play_one_turn_def move_def Let_def)

lemma play_one_turn_deterministic:
  assumes "deterministic (fst (players g))" and "deterministic (snd (players g))"
    and "0 < min_step g" and "min_step g \<le> max_step g"
  shows "(cls (whose_turn g (turn g)) = Player \<and>
          (\<forall>w. play_one_turn g w = Some (Inl NotImplementedError, g, w))) \<or>
         (\<exists>a. min_step g \<le> a \<and> a \<le> max_step g \<and>
            (\<forall>w. play_one_turn g w =
               Some (Inr (), g\<lparr>current := current g + a, turn := turn g + 1\<rparr>,
                     w\<lparr>stdout := stdout w @
                        [Moves (name (whose_turn g (turn g))) a,
                         TotalIsNow (current g + a)]\<rparr>)))"
proof -
  from assms(1,2) whose_turn_cases[of g "turn g"]
  have "deterministic (whose_turn g (turn g))" by auto
  then consider "cls (whose_turn g (turn g)) = Player"
    | "cls (whose_turn g (turn g)) = StrategicPlayer"
    by (auto simp: deterministic_def)
  then show ?thesis
  proof cases
    case 1
    then have "\<forall>w. play_one_turn g w = Some (Inl NotImplementedError, g, w)"
      by (simp add: play_one_turn_def move_def Player_move_def)
    with 1 show ?thesis by blast
  next
    case 2
    from StrategicPlayer_move_legal[OF assms(3,4)] obtain a where
      a: "StrategicPlayer_move (current g) (min_step g) (max_step g) (goal g) = Inr a"
      and "min_step g \<le> a" "a \<le> max_step g" by blast
    moreover from play_one_turn_Strategic[OF 2 a] have "\<forall>w. play_one_turn g w =
               Some (Inr (), g\<lparr>current := current g + a, turn := turn g + 1\<rparr>,
                     w\<lparr>stdout := stdout w @
                        [Moves (name (whose_turn g (turn g))) a,
                         TotalIsNow (current g + a)]\<rparr>)"
      by blast
    ultimately show ?thesis by blast
  qed
qed

subsection \<open>The loop, one step at a time\<close>

lemma play_loop_stop:
  "\<not> current g < goal g \<Longrightarrow> play_loop g w = Some (Inr (), g, w)"
  by (subst play_loop.simps) simp

lemma play_loop_continue:
  "current g < goal g \<Longrightarrow> play_one_turn g w = Some (Inr u, g1, w1) \<Longrightarrow>
     play_loop g w = play_loop g1 w1"
  by (subst play_loop.simps) simp

lemma play_loop_raise:
  "current g < goal g \<Longrightarrow> play_one_turn g w = Some (Inl e, g1, w1) \<Longrightarrow>
     play_loop g w = Some (Inl e, g1, w1)"
  by (subst play_loop.simps) simp

lemma play_loop_diverge:
  "current g < goal g \<Longrightarrow> play_one_turn g w = None \<Longrightarrow> play_loop g w = None"
  by (subst play_loop.simps) simp

text \<open>
  A round that returns has played its turns one after the other, each under the loop
  test, and stops at the first object whose count is not below the goal.
\<close>

lemma play_loop_last_turn:
  assumes "play_loop g w = Some y"
  shows "\<forall>g' w'. y = (Inr (), g', w') \<longrightarrow>
           \<not> current g' < goal g' \<and>
           (\<not> current g < goal g \<longrightarrow> g' = g \<and> w' = w) \<and>
           (current g < goal g \<longrightarrow>
              (\<exists>gp wp. plays_to (g, w) (gp, wp) \<and> current gp < goal gp \<and>
                 play_one_turn gp wp = Some (Inr (), g', w')))"
  using assms
proof (induct rule: play_loop.raw_induct[rotated 1, consumes 1])
  case (1 f g w y)
  show ?case
  proof (cases "current g < goal g")
    case False
    with 1(2) show ?thesis by auto
  next
    case True
    show ?thesis
    proof (intro allI impI)
      fix g' w'
      assume y: "y = (Inr (), g', w')"
      from 1(2) True obtain r g1 w1 where
        step: "play_one_turn g w = Some (r, g1, w1)" and
        rest: "(case r of Inl e \<Rightarrow> Some (Inl e, g1, w1) | Inr u \<Rightarrow> f g1 w1) = Some y"
        by (auto simp: bind_eq_Some_conv)
      from rest y have r: "r = Inr ()" and f: "f g1 w1 = Some y"
        by (cases r; simp)+
      from r step have step': "play_one_turn g w = Some (Inr (), g1, w1)" by simp
      from 1(1)[OF f] y have
        fin: "\<not> current g' < goal g'" and
        stop: "\<not> current g1 < goal g1 \<longrightarrow> g' = g1 \<and> w' = w1" and
        more: "current g1 < goal g1 \<longrightarrow>
          (\<exists>gp wp. plays_to (g1, w1) (gp, wp) \<and> current gp < goal gp \<and>
             play_one_turn gp wp = Some (Inr (), g', w'))"
        by blast+
      have "\<exists>gp wp. plays_to (g, w) (gp, wp) \<and> current gp < goal gp \<and>
                 play_one_turn gp wp = Some (Inr (), g', w')"
      proof (cases "current g1 < goal g1")
        case True
        with more obtain gp wp where
          "plays_to (g1, w1) (gp, wp)" "current gp < goal gp"
          "play_one_turn gp wp = Some (Inr (), g', w')" by blast
        with \<open>current g < goal g\<close> step' show ?thesis
          by (blast intro: plays_to.turn)
      next
        case False
        with stop have "g' = g1" "w' = w1" by simp_all
        with step' \<open>current g < goal g\<close> show ?thesis
          by (blast intro: plays_to.here)
      qed
      with fin True show "\<not> current g' < goal g' \<and>
           (\<not> current g < goal g \<longrightarrow> g' = g \<and> w' = w) \<and>
           (current g < goal g \<longrightarrow>
              (\<exists>gp wp. plays_to (g, w) (gp, wp) \<and> current gp < goal gp \<and>
                 play_one_turn gp wp = Some (Inr (), g', w')))" by blast
    qed
  qed
qed

text \<open>
  With deterministic players and \<open>0 < min_step \<le> max_step\<close> the loop returns, in every
  world with the same result, the same object and the same output. Every turn but the
  last starts below the goal and adds \<open>min_step\<close> at least, which bounds the turns.
\<close>

lemma play_loop_deterministic:
  assumes "deterministic (fst (players g))" and "deterministic (snd (players g))"
    and "0 < min_step g" and "min_step g \<le> max_step g"
  shows "\<exists>r g' evs.
           (\<forall>w. play_loop g w = Some (r, g', w\<lparr>stdout := stdout w @ evs\<rparr>)) \<and>
           turn g \<le> turn g' \<and>
           int (length (totals evs)) = turn g' - turn g \<and>
           (\<not> current g < goal g \<longrightarrow> turn g' = turn g) \<and>
           (r = Inr () \<or> r = Inl NotImplementedError) \<and>
           (r = Inl NotImplementedError \<longrightarrow>
              cls (fst (players g)) = Player \<or> cls (snd (players g)) = Player) \<and>
           (turn g' - turn g) * min_step g < max (goal g - current g) 0 + min_step g"
  using assms
proof (induction "nat (goal g - current g)" arbitrary: g rule: less_induct)
  case less
  show ?case
  proof (cases "current g < goal g")
    case False
    then have "\<forall>w. play_loop g w = Some (Inr (), g, w\<lparr>stdout := stdout w @ []\<rparr>)"
      by (simp add: play_loop_stop)
    moreover from less.prems(3) have
      "(turn g - turn g) * min_step g < max (goal g - current g) 0 + min_step g" by simp
    moreover have "int (length (totals [])) = turn g - turn g" by simp
    ultimately show ?thesis by (metis order_refl sum.distinct(1))
  next
    case True
    then have nz: "\<not> current g < goal g \<longrightarrow> turn g' = turn g" for g' by simp
    from play_one_turn_deterministic[OF less.prems]
    show ?thesis
    proof (elim disjE exE conjE)
      assume c: "cls (whose_turn g (turn g)) = Player"
        and "\<forall>w. play_one_turn g w = Some (Inl NotImplementedError, g, w)"
      with True have "\<forall>w. play_loop g w =
          Some (Inl NotImplementedError, g, w\<lparr>stdout := stdout w @ []\<rparr>)"
        by (simp add: play_loop_raise)
      moreover from less.prems(3) have
        "(turn g - turn g) * min_step g < max (goal g - current g) 0 + min_step g" by simp
      moreover from c whose_turn_cases[of g "turn g"]
      have "cls (fst (players g)) = Player \<or> cls (snd (players g)) = Player" by auto
      moreover have "int (length (totals [])) = turn g - turn g" by simp
      ultimately show ?thesis using nz by (metis order_refl)
    next
      fix a
      assume a: "min_step g \<le> a" "a \<le> max_step g"
        and step: "\<forall>w. play_one_turn g w =
               Some (Inr (), g\<lparr>current := current g + a, turn := turn g + 1\<rparr>,
                     w\<lparr>stdout := stdout w @
                        [Moves (name (whose_turn g (turn g))) a,
                         TotalIsNow (current g + a)]\<rparr>)"
      let ?g1 = "g\<lparr>current := current g + a, turn := turn g + 1\<rparr>"
      let ?ev = "[Moves (name (whose_turn g (turn g))) a, TotalIsNow (current g + a)]"
      from a less.prems(3) True have "nat (goal ?g1 - current ?g1) < nat (goal g - current g)"
        by simp
      from less.hyps[OF this] less.prems obtain r g' evs where
        run: "\<forall>w. play_loop ?g1 w = Some (r, g', w\<lparr>stdout := stdout w @ evs\<rparr>)"
        and t: "turn ?g1 \<le> turn g'"
        and n: "int (length (totals evs)) = turn g' - turn ?g1"
        and z: "\<not> current ?g1 < goal ?g1 \<longrightarrow> turn g' = turn ?g1"
        and r: "r = Inr () \<or> r = Inl NotImplementedError"
        and e: "r = Inl NotImplementedError \<longrightarrow>
                  cls (fst (players g)) = Player \<or> cls (snd (players g)) = Player"
        and b: "(turn g' - turn ?g1) * min_step ?g1
                  < max (goal ?g1 - current ?g1) 0 + min_step ?g1"
        by auto
      have "\<forall>w. play_loop g w = Some (r, g', w\<lparr>stdout := stdout w @ (?ev @ evs)\<rparr>)"
      proof
        fix w
        from step have "play_one_turn g w = Some (Inr (), ?g1, w\<lparr>stdout := stdout w @ ?ev\<rparr>)"
          by blast
        from play_loop_continue[OF True this] run show
          "play_loop g w = Some (r, g', w\<lparr>stdout := stdout w @ (?ev @ evs)\<rparr>)"
          by simp
      qed
      moreover from t have "turn g \<le> turn g'" by simp
      moreover from n have "int (length (totals (?ev @ evs))) = turn g' - turn g" by simp
      moreover have "(turn g' - turn g) * min_step g < max (goal g - current g) 0 + min_step g"
      proof -
        from b have "(turn g' - turn g - 1) * min_step g
            < max (goal g - current g - a) 0 + min_step g" by (simp add: algebra_simps)
        then have "(turn g' - turn g) * min_step g - min_step g
            < max (goal g - current g - a) 0 + min_step g" by (simp add: algebra_simps)
        with a True less.prems(3) z show ?thesis
          by (cases "current ?g1 < goal ?g1") (simp_all add: max_def)
      qed
      ultimately show ?thesis using nz r e by blast
    qed
  qed
qed

subsection \<open>Scenario B, turn by turn\<close>

text \<open>
  The round with goal 7 and both steps 3, two strategic players of any names, in any
  world: two turns bring the count to 6, and the third turn brings it to 9.
\<close>

lemma strategic_round_7_3_3:
  fixes n0 n1 :: string and w :: world
  defines "p0 \<equiv> \<lparr>name = n0, cls = StrategicPlayer\<rparr>"
    and "p1 \<equiv> \<lparr>name = n1, cls = StrategicPlayer\<rparr>"
  shows "play_loop \<lparr>goal = 7, min_step = 3, max_step = 3, current = 0,
                     players = (p0, p1), turn = 0\<rparr> w
         = play_loop \<lparr>goal = 7, min_step = 3, max_step = 3, current = 6,
                     players = (p0, p1), turn = 2\<rparr>
             (w\<lparr>stdout := stdout w @ [Moves n0 3, TotalIsNow 3, Moves n1 3, TotalIsNow 6]\<rparr>)"
    and "play_one_turn \<lparr>goal = 7, min_step = 3, max_step = 3, current = 6,
                     players = (p0, p1), turn = 2\<rparr>
             (w\<lparr>stdout := stdout w @ [Moves n0 3, TotalIsNow 3, Moves n1 3, TotalIsNow 6]\<rparr>)
         = Some (Inr (), \<lparr>goal = 7, min_step = 3, max_step = 3, current = 9,
                     players = (p0, p1), turn = 3\<rparr>,
             w\<lparr>stdout := stdout w @ [Moves n0 3, TotalIsNow 3, Moves n1 3, TotalIsNow 6,
                                      Moves n0 3, TotalIsNow 9]\<rparr>)"
proof -
  let ?g0 = "\<lparr>goal = 7, min_step = 3, max_step = 3, current = 0,
                     players = (p0, p1), turn = 0\<rparr>"
  let ?g1 = "\<lparr>goal = 7, min_step = 3, max_step = 3, current = 3,
                     players = (p0, p1), turn = 1\<rparr>"
  let ?g2 = "\<lparr>goal = 7, min_step = 3, max_step = 3, current = 6,
                     players = (p0, p1), turn = 2\<rparr>"
  let ?w1 = "w\<lparr>stdout := stdout w @ [Moves n0 3, TotalIsNow 3]\<rparr>"
  let ?w2 = "w\<lparr>stdout := stdout w @ [Moves n0 3, TotalIsNow 3, Moves n1 3, TotalIsNow 6]\<rparr>"
  have s1: "play_one_turn ?g0 w = Some (Inr (), ?g1, ?w1)"
    by (simp add: play_one_turn_def move_def whose_turn_def StrategicPlayer_move_def p0_def p1_def)
  have s2: "play_one_turn ?g1 ?w1 = Some (Inr (), ?g2, ?w2)"
    by (simp add: play_one_turn_def move_def whose_turn_def StrategicPlayer_move_def p0_def p1_def)
  have "play_loop ?g0 w = play_loop ?g1 ?w1"
    by (rule play_loop_continue[OF _ s1]) simp
  also have "\<dots> = play_loop ?g2 ?w2"
    by (rule play_loop_continue[OF _ s2]) simp
  finally show "play_loop ?g0 w = play_loop ?g2 ?w2" .
  show "play_one_turn ?g2 ?w2
         = Some (Inr (), \<lparr>goal = 7, min_step = 3, max_step = 3, current = 9,
                     players = (p0, p1), turn = 3\<rparr>,
             w\<lparr>stdout := stdout w @ [Moves n0 3, TotalIsNow 3, Moves n1 3, TotalIsNow 6,
                                      Moves n0 3, TotalIsNow 9]\<rparr>)"
    by (simp add: play_one_turn_def move_def whose_turn_def StrategicPlayer_move_def p0_def p1_def)
qed

subsection \<open>The bound on the turns\<close>

text \<open>
  A number of turns \<open>n\<close> of which all but the last started below the goal, each adding
  \<open>min_step\<close> at least, is at most the goal divided by \<open>min_step\<close>, rounded up.
\<close>

lemma ceiling_bound:
  fixes n gl mn :: int
  assumes "0 < mn" and "n * mn < gl + mn"
  shows "n \<le> \<lceil>real_of_int gl / real_of_int mn\<rceil>"
proof -
  from assms(2) have "(n - 1) * mn < gl" by (simp add: algebra_simps)
  then have "real_of_int ((n - 1) * mn) < real_of_int gl" by (simp only: of_int_less_iff)
  then have "real_of_int (n - 1) * real_of_int mn < real_of_int gl" by simp
  with assms(1) have "real_of_int (n - 1) < real_of_int gl / real_of_int mn"
    by (simp add: pos_less_divide_eq)
  then have "n - 1 < \<lceil>real_of_int gl / real_of_int mn\<rceil>" by (simp only: less_ceiling_iff)
  then show ?thesis by simp
qed

section \<open>The claims\<close>

text \<open>
  In the statements \<open>cur\<close>, \<open>mn\<close>, \<open>mx\<close> and \<open>gl\<close> stand for the arguments \<^verbatim>\<open>current\<close>,
  \<^verbatim>\<open>min_step\<close>, \<^verbatim>\<open>max_step\<close> and \<^verbatim>\<open>goal\<close>, whose own names are the fields of the
  game object.
\<close>

subsection \<open>C1: the three branches of the strategic move\<close>

text \<open>
  C1. For integers with \<open>0 < min_step \<le> max_step \<le> goal\<close> and \<open>remaining = goal - current\<close>,
  \<^verbatim>\<open>StrategicPlayer.move\<close> returns \<open>max_step\<close> when \<open>remaining \<ge> max_step\<close>, returns
  \<open>min_step\<close> when \<open>remaining < min_step\<close>, and otherwise returns
  \<open>remaining mod (max_step + 1)\<close>, a remainder that is not negative and at most \<open>max_step\<close>.
\<close>

theorem StrategicPlayer_move_cases:
  assumes "0 < mn" and "mn \<le> mx" and "mx \<le> gl"
  shows "(gl - cur \<ge> mx \<longrightarrow> StrategicPlayer_move cur mn mx gl = Inr mx)
       \<and> (gl - cur < mn \<longrightarrow> StrategicPlayer_move cur mn mx gl = Inr mn)
       \<and> (mn \<le> gl - cur \<and> gl - cur < mx \<longrightarrow>
            StrategicPlayer_move cur mn mx gl = Inr ((gl - cur) mod (mx + 1))
            \<and> 0 \<le> (gl - cur) mod (mx + 1) \<and> (gl - cur) mod (mx + 1) \<le> mx)"
proof (intro conjI impI)
  assume "mx \<le> gl - cur"
  then show "StrategicPlayer_move cur mn mx gl = Inr mx"
    by (simp add: StrategicPlayer_move_def)
next
  assume "gl - cur < mn"
  with assms(2) show "StrategicPlayer_move cur mn mx gl = Inr mn"
    by (simp add: StrategicPlayer_move_def)
next
  assume "mn \<le> gl - cur \<and> gl - cur < mx"
  with assms(1) show "StrategicPlayer_move cur mn mx gl = Inr ((gl - cur) mod (mx + 1))"
    by (simp add: StrategicPlayer_move_def)
next
  from assms(1,2) have "0 < mx + 1" by simp
  then show "0 \<le> (gl - cur) mod (mx + 1)" by simp
next
  from assms(1,2) have "0 < mx + 1" by simp
  then have "(gl - cur) mod (mx + 1) < mx + 1" by (rule pos_mod_bound)
  then show "(gl - cur) mod (mx + 1) \<le> mx" by simp
qed

theorem StrategicPlayer_move_cases_witness:
  "(0::int) < 2 \<and> (2::int) \<le> 5 \<and> (5::int) \<le> 10
   \<and> StrategicPlayer_move 0 2 5 10 = Inr 5
   \<and> StrategicPlayer_move 9 2 5 10 = Inr 2
   \<and> StrategicPlayer_move 7 2 5 10 = Inr 3"
  using StrategicPlayer_move_cases[of 2 5 10 0] StrategicPlayer_move_cases[of 2 5 10 9]
    StrategicPlayer_move_cases[of 2 5 10 7]
  by simp

subsection \<open>C4: construction checks nothing\<close>

text \<open>
  C4 says that a construction whose parameters break \<open>0 < min_step \<le> max_step \<le> goal\<close> is
  rejected. It is not: \<^verbatim>\<open>__init__\<close> stores what it is given. The three ways of breaking
  the precondition, each constructed with success.
\<close>

theorem NumberGame_init_accepts_invalid:
  "\<not> valid_config 5 0 3
   \<and> NumberGame_init 5 0 3
        (\<lparr>name = ''p1'', cls = RandomPlayer\<rparr>, \<lparr>name = ''p2'', cls = StrategicPlayer\<rparr>)
      = Inr \<lparr>goal = 5, min_step = 0, max_step = 3, current = 0,
             players = (\<lparr>name = ''p1'', cls = RandomPlayer\<rparr>,
                        \<lparr>name = ''p2'', cls = StrategicPlayer\<rparr>), turn = 0\<rparr>
   \<and> \<not> valid_config 5 4 3
   \<and> \<not> isl (NumberGame_init 5 4 3
        (\<lparr>name = ''p1'', cls = RandomPlayer\<rparr>, \<lparr>name = ''p2'', cls = StrategicPlayer\<rparr>))
   \<and> \<not> valid_config 5 2 9
   \<and> \<not> isl (NumberGame_init 5 2 9
        (\<lparr>name = ''p1'', cls = RandomPlayer\<rparr>, \<lparr>name = ''p2'', cls = StrategicPlayer\<rparr>))"
  by (simp add: valid_config_def NumberGame_init_def)

text \<open>
  C4, amended. Construction succeeds for every triple and every pair of players, valid or
  not: the new object holds the parameters as given, with the count and the turn at 0.
  The precondition of the docstring is left to the caller.
\<close>

theorem NumberGame_init_total:
  "\<exists>g. NumberGame_init gl mn mx ps = Inr g \<and> goal g = gl \<and> min_step g = mn \<and>
        max_step g = mx \<and> current g = 0 \<and> players g = ps \<and> turn g = 0"
  by (simp add: NumberGame_init_def)

subsection \<open>C5 and C10: the last branch of the strategic move\<close>

text \<open>
  C5 says that inputs exist, with \<open>0 < min_step \<le> max_step \<le> goal\<close> and in the last branch
  (\<open>min_step \<le> goal - current < max_step\<close>), where the move is outside
  \<open>[min_step, max_step]\<close>, namely where \<open>remaining mod (max_step + 1) < min_step\<close>. There
  are none, of either kind.
\<close>

theorem StrategicPlayer_move_no_illegal_input:
  "\<not> (\<exists>cur mn mx gl a. 0 < mn \<and> mn \<le> mx \<and> mx \<le> gl \<and> mn \<le> gl - cur \<and> gl - cur < mx \<and>
         StrategicPlayer_move cur mn mx gl = Inr a \<and> (a < mn \<or> mx < a))
   \<and> \<not> (\<exists>cur mn mx gl::int. 0 < mn \<and> mn \<le> mx \<and> mx \<le> gl \<and> mn \<le> gl - cur \<and> gl - cur < mx \<and>
         (gl - cur) mod (mx + 1) < mn \<and>
         StrategicPlayer_move cur mn mx gl = Inr ((gl - cur) mod (mx + 1)))"
  by (auto simp: StrategicPlayer_move_def Let_def)

text \<open>
  C5, amended. For all inputs with \<open>0 < min_step \<le> max_step \<le> goal\<close> in the last branch,
  \<open>remaining mod (max_step + 1)\<close> is at least \<open>min_step\<close>, and the move is inside
  \<open>[min_step, max_step]\<close>.
\<close>

theorem StrategicPlayer_move_last_branch_legal:
  assumes "0 < mn" and "mn \<le> mx" and "mx \<le> gl"
    and "mn \<le> gl - cur" and "gl - cur < mx"
  shows "mn \<le> (gl - cur) mod (mx + 1) \<and>
         (\<exists>a. StrategicPlayer_move cur mn mx gl = Inr a \<and> mn \<le> a \<and> a \<le> mx)"
  using assms by (auto simp: StrategicPlayer_move_def Let_def)

theorem StrategicPlayer_move_last_branch_legal_witness:
  "(0::int) < 2 \<and> (2::int) \<le> 5 \<and> (5::int) \<le> 10 \<and> (2::int) \<le> 10 - 7 \<and> (10::int) - 7 < 5
   \<and> (2::int) \<le> (10 - 7) mod (5 + 1)
   \<and> (\<exists>a. StrategicPlayer_move 7 2 5 10 = Inr a \<and> 2 \<le> a \<and> a \<le> 5)"
  using StrategicPlayer_move_last_branch_legal[of 2 5 10 7] by simp

text \<open>
  C10. For all inputs with \<open>0 < min_step \<le> max_step \<le> goal\<close> in the last branch,
  \<open>remaining mod (max_step + 1)\<close> is \<open>remaining\<close>, so there the strategic move is the
  simple strategy \<open>remaining_move\<close>; and under \<open>0 < min_step \<le> max_step \<le> goal\<close> the
  strategic move, whatever the count, is inside \<open>[min_step, max_step]\<close>.
\<close>

theorem StrategicPlayer_move_is_remaining:
  assumes "0 < mn" and "mn \<le> mx" and "mx \<le> gl"
  shows "(mn \<le> gl - cur \<and> gl - cur < mx \<longrightarrow>
            (gl - cur) mod (mx + 1) = gl - cur \<and>
            StrategicPlayer_move cur mn mx gl = remaining_move cur mn mx gl)
       \<and> (\<exists>a. StrategicPlayer_move cur mn mx gl = Inr a \<and> mn \<le> a \<and> a \<le> mx)"
  using assms by (auto simp: StrategicPlayer_move_def remaining_move_def Let_def)

theorem StrategicPlayer_move_is_remaining_witness:
  "(0::int) < 2 \<and> (2::int) \<le> 5 \<and> (5::int) \<le> 10 \<and> (2::int) \<le> 10 - 6 \<and> (10::int) - 6 < 5
   \<and> ((10::int) - 6) mod (5 + 1) = 10 - 6
   \<and> StrategicPlayer_move 6 2 5 10 = remaining_move 6 2 5 10
   \<and> remaining_move 6 2 5 10 = Inr 4
   \<and> (\<exists>a. StrategicPlayer_move 6 2 5 10 = Inr a \<and> 2 \<le> a \<and> a \<le> 5)"
  using StrategicPlayer_move_is_remaining[of 2 5 10 6]
  by (simp add: remaining_move_def)

subsection \<open>C6: whose turn\<close>

text \<open>
  C6. For every turn number \<open>t\<close> (non-negative or not), \<^verbatim>\<open>whose_turn(t)\<close> returns
  \<^verbatim>\<open>players[0]\<close> when \<open>t\<close> is even and \<^verbatim>\<open>players[1]\<close> otherwise, so that, the two players
  being different, it returns \<^verbatim>\<open>players[0]\<close> if and only if \<open>t\<close> is even; and the result is
  the same for two objects with the same players and two turn numbers of the same parity,
  whatever their count, goal and step bounds.
\<close>

theorem whose_turn_parity:
  "(even t \<longrightarrow> whose_turn g t = fst (players g))
   \<and> (odd t \<longrightarrow> whose_turn g t = snd (players g))
   \<and> (fst (players g) \<noteq> snd (players g) \<longrightarrow> (whose_turn g t = fst (players g) \<longleftrightarrow> even t))
   \<and> (players g' = players g \<and> (even t' \<longleftrightarrow> even t) \<longrightarrow> whose_turn g' t' = whose_turn g t)"
  by (auto simp: whose_turn_def even_iff_mod_2_eq_zero)

theorem whose_turn_parity_witness:
  "even (4::int) \<and> odd (7::int)
   \<and> whose_turn \<lparr>goal = 10, min_step = 2, max_step = 5, current = 0,
        players = (\<lparr>name = ''p1'', cls = UserPlayer\<rparr>, \<lparr>name = ''p2'', cls = RandomPlayer\<rparr>),
        turn = 0\<rparr> 4 = \<lparr>name = ''p1'', cls = UserPlayer\<rparr>
   \<and> whose_turn \<lparr>goal = 10, min_step = 2, max_step = 5, current = 0,
        players = (\<lparr>name = ''p1'', cls = UserPlayer\<rparr>, \<lparr>name = ''p2'', cls = RandomPlayer\<rparr>),
        turn = 0\<rparr> 7 = \<lparr>name = ''p2'', cls = RandomPlayer\<rparr>
   \<and> whose_turn \<lparr>goal = 21, min_step = 1, max_step = 3, current = 9,
        players = (\<lparr>name = ''p1'', cls = UserPlayer\<rparr>, \<lparr>name = ''p2'', cls = RandomPlayer\<rparr>),
        turn = 6\<rparr> 2
       = whose_turn \<lparr>goal = 10, min_step = 2, max_step = 5, current = 0,
        players = (\<lparr>name = ''p1'', cls = UserPlayer\<rparr>, \<lparr>name = ''p2'', cls = RandomPlayer\<rparr>),
        turn = 0\<rparr> 4"
proof -
  let ?g = "\<lparr>goal = 10, min_step = 2, max_step = 5, current = 0,
        players = (\<lparr>name = ''p1'', cls = UserPlayer\<rparr>, \<lparr>name = ''p2'', cls = RandomPlayer\<rparr>),
        turn = 0\<rparr>"
  let ?h = "\<lparr>goal = 21, min_step = 1, max_step = 3, current = 9,
        players = (\<lparr>name = ''p1'', cls = UserPlayer\<rparr>, \<lparr>name = ''p2'', cls = RandomPlayer\<rparr>),
        turn = 6\<rparr>"
  have e4: "even (4::int)" and o7: "odd (7::int)" by simp_all
  have same: "players ?h = players ?g \<and> (even (2::int) \<longleftrightarrow> even (4::int))" by simp
  from whose_turn_parity[of 4 ?g ?h 2] e4
  have 1: "whose_turn ?g 4 = fst (players ?g)" by blast
  from whose_turn_parity[of 7 ?g] o7
  have 2: "whose_turn ?g 7 = snd (players ?g)" by blast
  from whose_turn_parity[of 4 ?g ?h 2] same
  have 3: "whose_turn ?h 2 = whose_turn ?g 4" by blast
  from 1 have p4: "whose_turn ?g 4 = \<lparr>name = ''p1'', cls = UserPlayer\<rparr>" by simp
  from 2 have p7: "whose_turn ?g 7 = \<lparr>name = ''p2'', cls = RandomPlayer\<rparr>" by simp
  from e4 o7 p4 p7 3 show ?thesis by blast
qed

subsection \<open>C9: what one turn changes\<close>

text \<open>
  C9. Every call of \<^verbatim>\<open>play_one_turn\<close> does what the mover's \<^verbatim>\<open>move\<close> decides and nothing
  more. When \<^verbatim>\<open>move\<close> returns an amount, whatever the amount is (inside
  \<open>[min_step, max_step]\<close> or not, reaching the goal, passing it or neither), the call
  returns, and the object after it is the object before with \<open>current\<close> raised by exactly
  that amount and \<open>turn\<close> raised by 1, the two lines printed after what \<^verbatim>\<open>move\<close> printed.
  When \<^verbatim>\<open>move\<close> raises, the call raises the same exception and the object is untouched;
  when \<^verbatim>\<open>move\<close> does not return, neither does the call. So a call that comes back leaves
  \<open>goal\<close>, \<open>min_step\<close>, \<open>max_step\<close> and \<open>players\<close> as they were, an exception comes from
  \<^verbatim>\<open>move\<close> only, and only \<open>current\<close> and \<open>turn\<close> change.
\<close>

theorem play_one_turn_frame:
  "(\<forall>amount w1.
      move (whose_turn g (turn g)) (current g) (min_step g) (max_step g) (goal g) w
        = Some (Inr amount, w1) \<longrightarrow>
      play_one_turn g w =
        Some (Inr (), g\<lparr>current := current g + amount, turn := turn g + 1\<rparr>,
              w1\<lparr>stdout := stdout w1 @
                 [Moves (name (whose_turn g (turn g))) amount,
                  TotalIsNow (current g + amount)]\<rparr>))
   \<and> (\<forall>e w1.
      move (whose_turn g (turn g)) (current g) (min_step g) (max_step g) (goal g) w
        = Some (Inl e, w1) \<longrightarrow>
      play_one_turn g w = Some (Inl e, g, w1))
   \<and> (move (whose_turn g (turn g)) (current g) (min_step g) (max_step g) (goal g) w = None
        \<longrightarrow> play_one_turn g w = None)
   \<and> (\<forall>r g' w'. play_one_turn g w = Some (r, g', w') \<longrightarrow>
         goal g' = goal g \<and> min_step g' = min_step g \<and> max_step g' = max_step g \<and>
         players g' = players g \<and>
         (\<forall>u. r = Inr u \<longrightarrow>
            (\<exists>amount w1.
               move (whose_turn g (turn g)) (current g) (min_step g) (max_step g) (goal g) w
                 = Some (Inr amount, w1) \<and>
               current g' = current g + amount \<and> turn g' = turn g + 1 \<and>
               g' = g\<lparr>current := current g + amount, turn := turn g + 1\<rparr>)) \<and>
         (\<forall>e. r = Inl e \<longrightarrow>
            g' = g \<and>
            move (whose_turn g (turn g)) (current g) (min_step g) (max_step g) (goal g) w
              = Some (Inl e, w')))"
proof (intro conjI allI impI)
  fix amount w1
  assume "move (whose_turn g (turn g)) (current g) (min_step g) (max_step g) (goal g) w
            = Some (Inr amount, w1)"
  then show "play_one_turn g w =
        Some (Inr (), g\<lparr>current := current g + amount, turn := turn g + 1\<rparr>,
              w1\<lparr>stdout := stdout w1 @
                 [Moves (name (whose_turn g (turn g))) amount,
                  TotalIsNow (current g + amount)]\<rparr>)"
    by (simp add: play_one_turn_def Let_def)
next
  fix e w1
  assume "move (whose_turn g (turn g)) (current g) (min_step g) (max_step g) (goal g) w
            = Some (Inl e, w1)"
  then show "play_one_turn g w = Some (Inl e, g, w1)"
    by (simp add: play_one_turn_def Let_def)
next
  assume "move (whose_turn g (turn g)) (current g) (min_step g) (max_step g) (goal g) w = None"
  then show "play_one_turn g w = None"
    by (simp add: play_one_turn_def Let_def)
next
  fix r g' w'
  assume run: "play_one_turn g w = Some (r, g', w')"
  have frame: "goal g' = goal g \<and> min_step g' = min_step g \<and> max_step g' = max_step g \<and>
         players g' = players g"
  proof (cases r)
    case (Inl e)
    with run have "g' = g" by (auto dest: play_one_turn_raises)
    then show ?thesis by simp
  next
    case (Inr u)
    with run obtain amount where
      "g' = g\<lparr>current := current g + amount, turn := turn g + 1\<rparr>"
      by (auto dest: play_one_turn_returns)
    then show ?thesis by simp
  qed
  from frame show "goal g' = goal g" by simp
  from frame show "min_step g' = min_step g" by simp
  from frame show "max_step g' = max_step g" by simp
  from frame show "players g' = players g" by simp
  {
    fix u
    assume "r = Inr u"
    with run obtain amount w1 where
      "move (whose_turn g (turn g)) (current g) (min_step g) (max_step g) (goal g) w
         = Some (Inr amount, w1)"
      and "g' = g\<lparr>current := current g + amount, turn := turn g + 1\<rparr>"
      by (auto dest: play_one_turn_returns)
    then show "\<exists>amount w1.
               move (whose_turn g (turn g)) (current g) (min_step g) (max_step g) (goal g) w
                 = Some (Inr amount, w1) \<and>
               current g' = current g + amount \<and> turn g' = turn g + 1 \<and>
               g' = g\<lparr>current := current g + amount, turn := turn g + 1\<rparr>"
      by auto
  }
  {
    fix e
    assume "r = Inl e"
    with run show "g' = g"
      and "move (whose_turn g (turn g)) (current g) (min_step g) (max_step g) (goal g) w
              = Some (Inl e, w')"
      by (auto dest: play_one_turn_raises)
  }
qed

text \<open>
  Three calls. The first passes the goal: goal 7, both steps 3, count 6, and the move 3
  is added, with no exception. The second adds an amount outside \<open>[min_step, max_step]\<close>:
  an object with \<open>min_step = 5\<close> and \<open>max_step = 3\<close>, which \<^verbatim>\<open>__init__\<close> accepts; the
  strategic move is 3, below \<open>min_step\<close>, and it is added as it is. In the third the user
  types a line that is no integer: the call raises and the object is as it was.
\<close>

theorem play_one_turn_frame_witness:
  "move \<lparr>name = ''p1'', cls = StrategicPlayer\<rparr> 6 3 3 7
      \<lparr>stdin = sconst EndOfInput, rng = sconst 0, stdout = []\<rparr>
     = Some (Inr 3, \<lparr>stdin = sconst EndOfInput, rng = sconst 0, stdout = []\<rparr>)
   \<and> play_one_turn
       \<lparr>goal = 7, min_step = 3, max_step = 3, current = 6,
        players = (\<lparr>name = ''p1'', cls = StrategicPlayer\<rparr>, \<lparr>name = ''p2'', cls = UserPlayer\<rparr>),
        turn = 2\<rparr>
       \<lparr>stdin = sconst EndOfInput, rng = sconst 0, stdout = []\<rparr>
     = Some (Inr (),
         \<lparr>goal = 7, min_step = 3, max_step = 3, current = 9,
          players = (\<lparr>name = ''p1'', cls = StrategicPlayer\<rparr>, \<lparr>name = ''p2'', cls = UserPlayer\<rparr>),
          turn = 3\<rparr>,
         \<lparr>stdin = sconst EndOfInput, rng = sconst 0,
          stdout = [Moves ''p1'' 3, TotalIsNow 9]\<rparr>)
   \<and> move \<lparr>name = ''p1'', cls = StrategicPlayer\<rparr> 0 5 3 10
      \<lparr>stdin = sconst EndOfInput, rng = sconst 0, stdout = []\<rparr>
     = Some (Inr 3, \<lparr>stdin = sconst EndOfInput, rng = sconst 0, stdout = []\<rparr>)
   \<and> (3::int) < 5
   \<and> play_one_turn
       \<lparr>goal = 10, min_step = 5, max_step = 3, current = 0,
        players = (\<lparr>name = ''p1'', cls = StrategicPlayer\<rparr>, \<lparr>name = ''p2'', cls = UserPlayer\<rparr>),
        turn = 0\<rparr>
       \<lparr>stdin = sconst EndOfInput, rng = sconst 0, stdout = []\<rparr>
     = Some (Inr (),
         \<lparr>goal = 10, min_step = 5, max_step = 3, current = 3,
          players = (\<lparr>name = ''p1'', cls = StrategicPlayer\<rparr>, \<lparr>name = ''p2'', cls = UserPlayer\<rparr>),
          turn = 1\<rparr>,
         \<lparr>stdin = sconst EndOfInput, rng = sconst 0,
          stdout = [Moves ''p1'' 3, TotalIsNow 3]\<rparr>)
   \<and> move \<lparr>name = ''p2'', cls = UserPlayer\<rparr> 3 3 3 7
      \<lparr>stdin = Malformed ## sconst EndOfInput, rng = sconst 0, stdout = []\<rparr>
     = Some (Inl ValueError,
         \<lparr>stdin = sconst EndOfInput, rng = sconst 0, stdout = [Prompt 3 3]\<rparr>)
   \<and> play_one_turn
       \<lparr>goal = 7, min_step = 3, max_step = 3, current = 3,
        players = (\<lparr>name = ''p1'', cls = StrategicPlayer\<rparr>, \<lparr>name = ''p2'', cls = UserPlayer\<rparr>),
        turn = 1\<rparr>
       \<lparr>stdin = Malformed ## sconst EndOfInput, rng = sconst 0, stdout = []\<rparr>
     = Some (Inl ValueError,
         \<lparr>goal = 7, min_step = 3, max_step = 3, current = 3,
          players = (\<lparr>name = ''p1'', cls = StrategicPlayer\<rparr>, \<lparr>name = ''p2'', cls = UserPlayer\<rparr>),
          turn = 1\<rparr>,
         \<lparr>stdin = sconst EndOfInput, rng = sconst 0, stdout = [Prompt 3 3]\<rparr>)"
proof -
  let ?p1 = "\<lparr>name = ''p1'', cls = StrategicPlayer\<rparr>"
  let ?p2 = "\<lparr>name = ''p2'', cls = UserPlayer\<rparr>"
  let ?w = "\<lparr>stdin = sconst EndOfInput, rng = sconst 0, stdout = []\<rparr>"
  let ?wm = "\<lparr>stdin = Malformed ## sconst EndOfInput, rng = sconst 0, stdout = []\<rparr>"
  let ?we = "\<lparr>stdin = sconst EndOfInput, rng = sconst 0, stdout = [Prompt 3 3]\<rparr>"
  let ?a = "\<lparr>goal = 7, min_step = 3, max_step = 3, current = 6, players = (?p1, ?p2), turn = 2\<rparr>"
  let ?b = "\<lparr>goal = 10, min_step = 5, max_step = 3, current = 0, players = (?p1, ?p2), turn = 0\<rparr>"
  let ?c = "\<lparr>goal = 7, min_step = 3, max_step = 3, current = 3, players = (?p1, ?p2), turn = 1\<rparr>"
  have ma: "move ?p1 6 3 3 7 ?w = Some (Inr 3, ?w)"
    by (simp add: move_def StrategicPlayer_move_def)
  have mb: "move ?p1 0 5 3 10 ?w = Some (Inr 3, ?w)"
    by (simp add: move_def StrategicPlayer_move_def)
  have "UserPlayer_move 3 3 3 7 ?wm = Some (Inl ValueError, ?we)"
    by (subst UserPlayer_move.simps) simp
  then have mc: "move ?p2 3 3 3 7 ?wm = Some (Inl ValueError, ?we)"
    by (simp add: move_def)
  have wa: "whose_turn ?a (turn ?a) = ?p1" and wb: "whose_turn ?b (turn ?b) = ?p1"
    and wc: "whose_turn ?c (turn ?c) = ?p2"
    by (simp_all add: whose_turn_def)
  from ma wa have "move (whose_turn ?a (turn ?a)) (current ?a) (min_step ?a) (max_step ?a)
      (goal ?a) ?w = Some (Inr 3, ?w)" by simp
  with play_one_turn_frame[of ?a ?w] have "play_one_turn ?a ?w =
      Some (Inr (), ?a\<lparr>current := current ?a + 3, turn := turn ?a + 1\<rparr>,
            ?w\<lparr>stdout := stdout ?w @
               [Moves (name (whose_turn ?a (turn ?a))) 3, TotalIsNow (current ?a + 3)]\<rparr>)"
    by blast
  with wa have ra: "play_one_turn ?a ?w =
      Some (Inr (), \<lparr>goal = 7, min_step = 3, max_step = 3, current = 9,
                      players = (?p1, ?p2), turn = 3\<rparr>,
            \<lparr>stdin = sconst EndOfInput, rng = sconst 0,
             stdout = [Moves ''p1'' 3, TotalIsNow 9]\<rparr>)" by simp
  from mb wb have "move (whose_turn ?b (turn ?b)) (current ?b) (min_step ?b) (max_step ?b)
      (goal ?b) ?w = Some (Inr 3, ?w)" by simp
  with play_one_turn_frame[of ?b ?w] have "play_one_turn ?b ?w =
      Some (Inr (), ?b\<lparr>current := current ?b + 3, turn := turn ?b + 1\<rparr>,
            ?w\<lparr>stdout := stdout ?w @
               [Moves (name (whose_turn ?b (turn ?b))) 3, TotalIsNow (current ?b + 3)]\<rparr>)"
    by blast
  with wb have rb: "play_one_turn ?b ?w =
      Some (Inr (), \<lparr>goal = 10, min_step = 5, max_step = 3, current = 3,
                      players = (?p1, ?p2), turn = 1\<rparr>,
            \<lparr>stdin = sconst EndOfInput, rng = sconst 0,
             stdout = [Moves ''p1'' 3, TotalIsNow 3]\<rparr>)" by simp
  from mc wc have "move (whose_turn ?c (turn ?c)) (current ?c) (min_step ?c) (max_step ?c)
      (goal ?c) ?wm = Some (Inl ValueError, ?we)" by simp
  with play_one_turn_frame[of ?c ?wm] have rc: "play_one_turn ?c ?wm
      = Some (Inl ValueError, ?c, ?we)" by blast
  have lt: "(3::int) < 5" by simp
  from ma ra mb lt rb mc rc show ?thesis by (intro conjI)
qed

subsection \<open>C7: scenario B\<close>

text \<open>
  C7. With goal 7 and both steps 3, two strategic players and a fresh session, \<^verbatim>\<open>play\<close>
  prints the totals 3, 6, 9. The round ends with the third move, made on turn index 2 by
  \<^verbatim>\<open>players[0]\<close> from the count 6, which brings the count to 9, above the goal; the turn
  counter ends at 3, and the winner returned is the name of \<^verbatim>\<open>players[0]\<close>.
\<close>

theorem scenario_B:
  "NumberGame_init 7 3 3 (\<lparr>name = n0, cls = StrategicPlayer\<rparr>, \<lparr>name = n1, cls = StrategicPlayer\<rparr>)
     = Inr \<lparr>goal = 7, min_step = 3, max_step = 3, current = 0,
            players = (\<lparr>name = n0, cls = StrategicPlayer\<rparr>, \<lparr>name = n1, cls = StrategicPlayer\<rparr>),
            turn = 0\<rparr>
   \<and> play \<lparr>goal = 7, min_step = 3, max_step = 3, current = 0,
            players = (\<lparr>name = n0, cls = StrategicPlayer\<rparr>, \<lparr>name = n1, cls = StrategicPlayer\<rparr>),
            turn = 0\<rparr> w
     = Some (Inr n0,
         \<lparr>goal = 7, min_step = 3, max_step = 3, current = 9,
          players = (\<lparr>name = n0, cls = StrategicPlayer\<rparr>, \<lparr>name = n1, cls = StrategicPlayer\<rparr>),
          turn = 3\<rparr>,
         w\<lparr>stdout := stdout w @ [Moves n0 3, TotalIsNow 3, Moves n1 3, TotalIsNow 6,
                                  Moves n0 3, TotalIsNow 9]\<rparr>)
   \<and> totals [Moves n0 3, TotalIsNow 3, Moves n1 3, TotalIsNow 6, Moves n0 3, TotalIsNow 9]
       = [3, 6, 9]
   \<and> whose_turn \<lparr>goal = 7, min_step = 3, max_step = 3, current = 6,
            players = (\<lparr>name = n0, cls = StrategicPlayer\<rparr>, \<lparr>name = n1, cls = StrategicPlayer\<rparr>),
            turn = 2\<rparr> 2 = \<lparr>name = n0, cls = StrategicPlayer\<rparr>
   \<and> play_one_turn \<lparr>goal = 7, min_step = 3, max_step = 3, current = 6,
            players = (\<lparr>name = n0, cls = StrategicPlayer\<rparr>, \<lparr>name = n1, cls = StrategicPlayer\<rparr>),
            turn = 2\<rparr>
         (w\<lparr>stdout := stdout w @ [Moves n0 3, TotalIsNow 3, Moves n1 3, TotalIsNow 6]\<rparr>)
     = Some (Inr (),
         \<lparr>goal = 7, min_step = 3, max_step = 3, current = 9,
          players = (\<lparr>name = n0, cls = StrategicPlayer\<rparr>, \<lparr>name = n1, cls = StrategicPlayer\<rparr>),
          turn = 3\<rparr>,
         w\<lparr>stdout := stdout w @ [Moves n0 3, TotalIsNow 3, Moves n1 3, TotalIsNow 6,
                                  Moves n0 3, TotalIsNow 9]\<rparr>)"
proof -
  let ?ps = "(\<lparr>name = n0, cls = StrategicPlayer\<rparr>, \<lparr>name = n1, cls = StrategicPlayer\<rparr>)"
  let ?g0 = "\<lparr>goal = 7, min_step = 3, max_step = 3, current = 0, players = ?ps, turn = 0\<rparr>"
  let ?g2 = "\<lparr>goal = 7, min_step = 3, max_step = 3, current = 6, players = ?ps, turn = 2\<rparr>"
  let ?g3 = "\<lparr>goal = 7, min_step = 3, max_step = 3, current = 9, players = ?ps, turn = 3\<rparr>"
  let ?w2 = "w\<lparr>stdout := stdout w @ [Moves n0 3, TotalIsNow 3, Moves n1 3, TotalIsNow 6]\<rparr>"
  let ?w3 = "w\<lparr>stdout := stdout w @ [Moves n0 3, TotalIsNow 3, Moves n1 3, TotalIsNow 6,
                                  Moves n0 3, TotalIsNow 9]\<rparr>"
  have init: "NumberGame_init 7 3 3 ?ps = Inr ?g0" by (simp add: NumberGame_init_def)
  have s3: "play_one_turn ?g2 ?w2 = Some (Inr (), ?g3, ?w3)" by (rule strategic_round_7_3_3(2))
  have "play_loop ?g0 w = play_loop ?g2 ?w2" by (rule strategic_round_7_3_3(1))
  also have "\<dots> = play_loop ?g3 ?w3" by (rule play_loop_continue[OF _ s3]) simp
  also have "\<dots> = Some (Inr (), ?g3, ?w3)" by (rule play_loop_stop) simp
  finally have "play ?g0 w = Some (Inr n0, ?g3, ?w3)"
    by (simp add: play_def whose_turn_def)
  moreover have "totals [Moves n0 3, TotalIsNow 3, Moves n1 3, TotalIsNow 6, Moves n0 3,
                         TotalIsNow 9] = [3, 6, 9]" by simp
  moreover have "whose_turn ?g2 2 = \<lparr>name = n0, cls = StrategicPlayer\<rparr>"
    by (simp add: whose_turn_def)
  ultimately show ?thesis using init s3 by blast
qed

subsection \<open>C2: the winner is the player of the last move\<close>

text \<open>
  C2. For every valid configuration and every two players, of any class, with which the
  round on a fresh session returns: the loop has played its turns one after the other,
  each because the count was below the goal, up to a last turn that started below the
  goal and brought the count to the goal or above it (exactly or past it); and the name
  returned is that of \<^verbatim>\<open>whose_turn(turn - 1)\<close>, who is the player that made this last move,
  not the player who would move next.
\<close>

theorem play_winner_is_last_mover:
  assumes "valid_config gl mn mx"
    and "NumberGame_init gl mn mx ps = Inr g0"
    and "play g0 w = Some (Inr winner, g', w')"
  shows "goal g' \<le> current g' \<and>
         winner = name (whose_turn g' (turn g' - 1)) \<and>
         (\<exists>gp wp. plays_to (g0, w) (gp, wp) \<and> current gp < goal gp \<and>
            play_one_turn gp wp = Some (Inr (), g', w') \<and>
            turn gp = turn g' - 1 \<and>
            winner = name (whose_turn gp (turn gp)) \<and>
            (even (turn gp) \<longrightarrow> winner = name (fst ps)) \<and>
            (odd (turn gp) \<longrightarrow> winner = name (snd ps)))"
proof -
  from assms(2) have g0: "current g0 = 0" "goal g0 = gl" "players g0 = ps"
    by (auto simp: NumberGame_init_def)
  from assms(1) have "0 < gl" by (simp add: valid_config_def)
  with g0 have below: "current g0 < goal g0" by simp
  from assms(3) have loop: "play_loop g0 w = Some (Inr (), g', w')"
    and win: "winner = name (whose_turn g' (turn g' - 1))"
    by (auto simp: play_def Let_def split: option.splits sum.splits)
  from play_loop_last_turn[OF loop] below obtain gp wp where
    fin: "\<not> current g' < goal g'" and
    path: "plays_to (g0, w) (gp, wp)" and
    lt: "current gp < goal gp" and
    last: "play_one_turn gp wp = Some (Inr (), g', w')"
    by blast
  from play_one_turn_returns[OF last] have
    t: "turn g' = turn gp + 1" and p: "players g' = players gp" by auto
  then have same: "whose_turn g' (turn g' - 1) = whose_turn gp (turn gp)"
    by (simp add: whose_turn_def)
  have keep: "plays_to s s' \<Longrightarrow> players (fst s') = players (fst s)" for s s'
  proof (induction rule: plays_to.induct)
    case (here s)
    show ?case by simp
  next
    case (turn g w g1 w1 s)
    from play_one_turn_returns[OF turn.hyps(2)] have "players g1 = players g" by auto
    with turn.IH show ?case by simp
  qed
  from keep[OF path] g0 have ps: "players gp = ps" by simp
  from win same have w1: "winner = name (whose_turn gp (turn gp))" by simp
  from w1 ps have e: "even (turn gp) \<longrightarrow> winner = name (fst ps)"
    by (simp add: whose_turn_def even_iff_mod_2_eq_zero)
  from w1 ps have o: "odd (turn gp) \<longrightarrow> winner = name (snd ps)"
    by (simp add: whose_turn_def even_iff_mod_2_eq_zero)
  from t have tg: "turn gp = turn g' - 1" by simp
  from fin have over: "goal g' \<le> current g'" by simp
  have "\<exists>gp wp. plays_to (g0, w) (gp, wp) \<and> current gp < goal gp \<and>
            play_one_turn gp wp = Some (Inr (), g', w') \<and>
            turn gp = turn g' - 1 \<and>
            winner = name (whose_turn gp (turn gp)) \<and>
            (even (turn gp) \<longrightarrow> winner = name (fst ps)) \<and>
            (odd (turn gp) \<longrightarrow> winner = name (snd ps))"
    using path lt last tg w1 e o by (intro exI[of _ gp] exI[of _ wp] conjI)
  with over win show ?thesis by (intro conjI)
qed

theorem play_winner_is_last_mover_witness:
  "valid_config 7 3 3
   \<and> NumberGame_init 7 3 3
        (\<lparr>name = ''p1'', cls = StrategicPlayer\<rparr>, \<lparr>name = ''p2'', cls = StrategicPlayer\<rparr>)
      = Inr \<lparr>goal = 7, min_step = 3, max_step = 3, current = 0,
             players = (\<lparr>name = ''p1'', cls = StrategicPlayer\<rparr>,
                        \<lparr>name = ''p2'', cls = StrategicPlayer\<rparr>), turn = 0\<rparr>
   \<and> play \<lparr>goal = 7, min_step = 3, max_step = 3, current = 0,
             players = (\<lparr>name = ''p1'', cls = StrategicPlayer\<rparr>,
                        \<lparr>name = ''p2'', cls = StrategicPlayer\<rparr>), turn = 0\<rparr>
        \<lparr>stdin = sconst EndOfInput, rng = sconst 0, stdout = []\<rparr>
      = Some (Inr ''p1'',
          \<lparr>goal = 7, min_step = 3, max_step = 3, current = 9,
           players = (\<lparr>name = ''p1'', cls = StrategicPlayer\<rparr>,
                      \<lparr>name = ''p2'', cls = StrategicPlayer\<rparr>), turn = 3\<rparr>,
          \<lparr>stdin = sconst EndOfInput, rng = sconst 0,
           stdout = [Moves ''p1'' 3, TotalIsNow 3, Moves ''p2'' 3, TotalIsNow 6,
                     Moves ''p1'' 3, TotalIsNow 9]\<rparr>)
   \<and> (\<exists>gp wp. plays_to
          (\<lparr>goal = 7, min_step = 3, max_step = 3, current = 0,
             players = (\<lparr>name = ''p1'', cls = StrategicPlayer\<rparr>,
                        \<lparr>name = ''p2'', cls = StrategicPlayer\<rparr>), turn = 0\<rparr>,
           \<lparr>stdin = sconst EndOfInput, rng = sconst 0, stdout = []\<rparr>) (gp, wp)
        \<and> current gp < goal gp \<and> turn gp = 3 - 1
        \<and> ''p1'' = name (whose_turn gp (turn gp)))"
proof -
  let ?ps = "(\<lparr>name = ''p1'', cls = StrategicPlayer\<rparr>, \<lparr>name = ''p2'', cls = StrategicPlayer\<rparr>)"
  let ?g0 = "\<lparr>goal = 7, min_step = 3, max_step = 3, current = 0, players = ?ps, turn = 0\<rparr>"
  let ?g2 = "\<lparr>goal = 7, min_step = 3, max_step = 3, current = 6, players = ?ps, turn = 2\<rparr>"
  let ?g3 = "\<lparr>goal = 7, min_step = 3, max_step = 3, current = 9, players = ?ps, turn = 3\<rparr>"
  let ?w = "\<lparr>stdin = sconst EndOfInput, rng = sconst 0, stdout = []\<rparr>"
  let ?w2 = "\<lparr>stdin = sconst EndOfInput, rng = sconst 0,
             stdout = [Moves ''p1'' 3, TotalIsNow 3, Moves ''p2'' 3, TotalIsNow 6]\<rparr>"
  let ?w3 = "\<lparr>stdin = sconst EndOfInput, rng = sconst 0,
           stdout = [Moves ''p1'' 3, TotalIsNow 3, Moves ''p2'' 3, TotalIsNow 6,
                     Moves ''p1'' 3, TotalIsNow 9]\<rparr>"
  have v: "valid_config 7 3 3" by (simp add: valid_config_def)
  have i: "NumberGame_init 7 3 3 ?ps = Inr ?g0" by (simp add: NumberGame_init_def)
  from strategic_round_7_3_3(2)[of "''p1''" "''p2''" ?w]
  have s3: "play_one_turn ?g2 ?w2 = Some (Inr (), ?g3, ?w3)" by simp
  from strategic_round_7_3_3(1)[of "''p1''" "''p2''" ?w]
  have "play_loop ?g0 ?w = play_loop ?g2 ?w2" by simp
  also have "\<dots> = play_loop ?g3 ?w3" by (rule play_loop_continue[OF _ s3]) simp
  also have "\<dots> = Some (Inr (), ?g3, ?w3)" by (rule play_loop_stop) simp
  finally have run: "play ?g0 ?w = Some (Inr ''p1'', ?g3, ?w3)"
    by (simp add: play_def whose_turn_def)
  note c = play_winner_is_last_mover[OF v i run, THEN conjunct2, THEN conjunct2]
  then obtain gp wp where a: "plays_to (?g0, ?w) (gp, wp)" and b: "current gp < goal gp"
    and d: "turn gp = turn ?g3 - 1" and e: "''p1'' = name (whose_turn gp (turn gp))"
    by (elim exE conjE) (rule that)
  from d have d': "turn gp = 3 - 1" by simp
  have "\<exists>gp wp. plays_to (?g0, ?w) (gp, wp) \<and> current gp < goal gp \<and> turn gp = 3 - 1
        \<and> ''p1'' = name (whose_turn gp (turn gp))"
    using a b d' e by (intro exI[of _ gp] exI[of _ wp] conjI)
  with v i run show ?thesis by (intro conjI)
qed

subsection \<open>C3: the round ends, within a bound on its turns\<close>

text \<open>
  C3. For every valid configuration, every two deterministic players and every world, the
  round on a fresh session comes back, and the number of turns it played, which is the
  turn counter at the end and the number of totals it printed, is at most
  \<open>\<lceil>goal / min_step\<rceil>\<close>, hence at most \<open>\<lceil>goal / min_step\<rceil> + 1\<close>. With two strategic
  players it comes back with a winner, not with an exception.
\<close>

theorem play_terminates_within_bound:
  assumes "valid_config gl mn mx"
    and "deterministic p0" and "deterministic p1"
    and "NumberGame_init gl mn mx (p0, p1) = Inr g0"
  shows "\<exists>r g' evs. play g0 w = Some (r, g', w\<lparr>stdout := stdout w @ evs\<rparr>) \<and>
           0 \<le> turn g' \<and>
           int (length (totals evs)) = turn g' \<and>
           turn g' \<le> \<lceil>real_of_int gl / real_of_int mn\<rceil> \<and>
           turn g' \<le> \<lceil>real_of_int gl / real_of_int mn\<rceil> + 1 \<and>
           (cls p0 = StrategicPlayer \<and> cls p1 = StrategicPlayer \<longrightarrow>
              (\<exists>winner. r = Inr winner))"
proof -
  from assms(4) have g0: "goal g0 = gl" "min_step g0 = mn" "max_step g0 = mx"
    "current g0 = 0" "players g0 = (p0, p1)" "turn g0 = 0"
    by (auto simp: NumberGame_init_def)
  from assms(1) have v: "0 < mn" "mn \<le> mx" "mx \<le> gl" by (simp_all add: valid_config_def)
  from g0 assms(2,3) v have
    "deterministic (fst (players g0))" "deterministic (snd (players g0))"
    "0 < min_step g0" "min_step g0 \<le> max_step g0" by simp_all
  from play_loop_deterministic[OF this] obtain r g' evs where
    run: "\<forall>w. play_loop g0 w = Some (r, g', w\<lparr>stdout := stdout w @ evs\<rparr>)"
    and t: "turn g0 \<le> turn g'"
    and n: "int (length (totals evs)) = turn g' - turn g0"
    and r: "r = Inr () \<or> r = Inl NotImplementedError"
    and e: "r = Inl NotImplementedError \<longrightarrow>
              cls (fst (players g0)) = Player \<or> cls (snd (players g0)) = Player"
    and b: "(turn g' - turn g0) * min_step g0 < max (goal g0 - current g0) 0 + min_step g0"
    by blast
  from b g0 v have "turn g' * mn < gl + mn" by simp
  from ceiling_bound[OF v(1) this]
  have c: "turn g' \<le> \<lceil>real_of_int gl / real_of_int mn\<rceil>" .
  from run have loop: "play_loop g0 w = Some (r, g', w\<lparr>stdout := stdout w @ evs\<rparr>)" by blast
  define r' :: "error + string" where
    "r' = (case r of Inl x \<Rightarrow> Inl x | Inr u \<Rightarrow> Inr (name (whose_turn g' (turn g' - 1))))"
  from loop have p: "play g0 w = Some (r', g', w\<lparr>stdout := stdout w @ evs\<rparr>)"
    by (simp add: play_def r'_def split: sum.splits)
  have s: "cls p0 = StrategicPlayer \<and> cls p1 = StrategicPlayer \<longrightarrow> (\<exists>winner. r' = Inr winner)"
  proof
    assume "cls p0 = StrategicPlayer \<and> cls p1 = StrategicPlayer"
    with e g0 have "r \<noteq> Inl NotImplementedError" by auto
    with r have "r = Inr ()" by simp
    then show "\<exists>winner. r' = Inr winner" by (simp add: r'_def)
  qed
  from t g0 have t0: "0 \<le> turn g'" by simp
  from n g0 have n0: "int (length (totals evs)) = turn g'" by simp
  from c have c1: "turn g' \<le> \<lceil>real_of_int gl / real_of_int mn\<rceil> + 1" by simp
  from p t0 n0 c c1 s show ?thesis by (intro exI[of _ r'] exI[of _ g'] exI[of _ evs] conjI)
qed

theorem play_terminates_within_bound_witness:
  "valid_config 7 3 3
   \<and> deterministic \<lparr>name = ''p1'', cls = StrategicPlayer\<rparr>
   \<and> deterministic \<lparr>name = ''p2'', cls = StrategicPlayer\<rparr>
   \<and> NumberGame_init 7 3 3
        (\<lparr>name = ''p1'', cls = StrategicPlayer\<rparr>, \<lparr>name = ''p2'', cls = StrategicPlayer\<rparr>)
      = Inr \<lparr>goal = 7, min_step = 3, max_step = 3, current = 0,
             players = (\<lparr>name = ''p1'', cls = StrategicPlayer\<rparr>,
                        \<lparr>name = ''p2'', cls = StrategicPlayer\<rparr>), turn = 0\<rparr>
   \<and> (\<exists>r g' evs.
        play \<lparr>goal = 7, min_step = 3, max_step = 3, current = 0,
             players = (\<lparr>name = ''p1'', cls = StrategicPlayer\<rparr>,
                        \<lparr>name = ''p2'', cls = StrategicPlayer\<rparr>), turn = 0\<rparr>
          \<lparr>stdin = sconst EndOfInput, rng = sconst 0, stdout = []\<rparr>
          = Some (r, g', \<lparr>stdin = sconst EndOfInput, rng = sconst 0, stdout = evs\<rparr>)
        \<and> int (length (totals evs)) = turn g'
        \<and> turn g' \<le> \<lceil>real_of_int 7 / real_of_int 3\<rceil> + 1
        \<and> (\<exists>winner. r = Inr winner))"
proof -
  let ?p0 = "\<lparr>name = ''p1'', cls = StrategicPlayer\<rparr>"
  let ?p1 = "\<lparr>name = ''p2'', cls = StrategicPlayer\<rparr>"
  let ?g0 = "\<lparr>goal = 7, min_step = 3, max_step = 3, current = 0, players = (?p0, ?p1), turn = 0\<rparr>"
  let ?w = "\<lparr>stdin = sconst EndOfInput, rng = sconst 0, stdout = []\<rparr>"
  have v: "valid_config 7 3 3" by (simp add: valid_config_def)
  have d0: "deterministic ?p0" and d1: "deterministic ?p1" by (simp_all add: deterministic_def)
  have i: "NumberGame_init 7 3 3 (?p0, ?p1) = Inr ?g0" by (simp add: NumberGame_init_def)
  from play_terminates_within_bound[OF v d0 d1 i, where w = ?w] obtain r g' evs where
    p: "play ?g0 ?w = Some (r, g', ?w\<lparr>stdout := stdout ?w @ evs\<rparr>)"
    and n: "int (length (totals evs)) = turn g'"
    and c: "turn g' \<le> \<lceil>real_of_int 7 / real_of_int 3\<rceil> + 1"
    and s: "cls ?p0 = StrategicPlayer \<and> cls ?p1 = StrategicPlayer \<longrightarrow> (\<exists>winner. r = Inr winner)"
    by (elim exE conjE) (rule that)
  from p have p': "play ?g0 ?w
      = Some (r, g', \<lparr>stdin = sconst EndOfInput, rng = sconst 0, stdout = evs\<rparr>)" by simp
  from s have s': "\<exists>winner. r = Inr winner" by simp
  have "\<exists>r g' evs. play ?g0 ?w
          = Some (r, g', \<lparr>stdin = sconst EndOfInput, rng = sconst 0, stdout = evs\<rparr>)
        \<and> int (length (totals evs)) = turn g'
        \<and> turn g' \<le> \<lceil>real_of_int 7 / real_of_int 3\<rceil> + 1
        \<and> (\<exists>winner. r = Inr winner)"
    using p' n c s' by (intro exI[of _ r] exI[of _ g'] exI[of _ evs] conjI)
  with v d0 d1 i show ?thesis by (intro conjI)
qed

subsection \<open>C8: the same round twice\<close>

text \<open>
  C8. For every valid configuration and every two deterministic players, two fresh
  sessions with that configuration and those players, played in any two worlds (so also
  one after the other, the second in the world the first has left), come back with the
  same result (the same winner name), the same final object and the same printed output,
  hence the same turn-by-turn totals.
\<close>

theorem play_twice_identical:
  assumes "valid_config gl mn mx"
    and "deterministic p0" and "deterministic p1"
    and "NumberGame_init gl mn mx (p0, p1) = Inr g1"
    and "NumberGame_init gl mn mx (p0, p1) = Inr g2"
  shows "\<exists>r g' evs.
           play g1 w1 = Some (r, g', w1\<lparr>stdout := stdout w1 @ evs\<rparr>) \<and>
           play g2 w2 = Some (r, g', w2\<lparr>stdout := stdout w2 @ evs\<rparr>) \<and>
           totals (drop (length (stdout w1)) (stdout (w1\<lparr>stdout := stdout w1 @ evs\<rparr>)))
             = totals (drop (length (stdout w2)) (stdout (w2\<lparr>stdout := stdout w2 @ evs\<rparr>)))"
proof -
  from assms(4,5) have same: "g2 = g1" by simp
  from assms(4) have g1: "min_step g1 = mn" "max_step g1 = mx" "players g1 = (p0, p1)"
    by (auto simp: NumberGame_init_def)
  from assms(1) have v: "0 < mn" "mn \<le> mx" by (simp_all add: valid_config_def)
  from g1 assms(2,3) v have
    "deterministic (fst (players g1))" "deterministic (snd (players g1))"
    "0 < min_step g1" "min_step g1 \<le> max_step g1" by simp_all
  from play_loop_deterministic[OF this] obtain r g' evs where
    run: "\<forall>w. play_loop g1 w = Some (r, g', w\<lparr>stdout := stdout w @ evs\<rparr>)"
    by blast
  define r' :: "error + string" where
    "r' = (case r of Inl x \<Rightarrow> Inl x | Inr u \<Rightarrow> Inr (name (whose_turn g' (turn g' - 1))))"
  have p: "play g1 w = Some (r', g', w\<lparr>stdout := stdout w @ evs\<rparr>)" for w
  proof -
    from run have "play_loop g1 w = Some (r, g', w\<lparr>stdout := stdout w @ evs\<rparr>)" by blast
    then show ?thesis by (simp add: play_def r'_def split: sum.splits)
  qed
  have "totals (drop (length (stdout w1)) (stdout (w1\<lparr>stdout := stdout w1 @ evs\<rparr>)))
             = totals (drop (length (stdout w2)) (stdout (w2\<lparr>stdout := stdout w2 @ evs\<rparr>)))"
    by simp
  with p[of w1] p[of w2] same show ?thesis
    by (intro exI[of _ r'] exI[of _ g'] exI[of _ evs] conjI) simp_all
qed

theorem play_twice_identical_witness:
  "valid_config 7 3 3
   \<and> deterministic \<lparr>name = ''p1'', cls = StrategicPlayer\<rparr>
   \<and> deterministic \<lparr>name = ''p2'', cls = StrategicPlayer\<rparr>
   \<and> NumberGame_init 7 3 3
        (\<lparr>name = ''p1'', cls = StrategicPlayer\<rparr>, \<lparr>name = ''p2'', cls = StrategicPlayer\<rparr>)
      = Inr \<lparr>goal = 7, min_step = 3, max_step = 3, current = 0,
             players = (\<lparr>name = ''p1'', cls = StrategicPlayer\<rparr>,
                        \<lparr>name = ''p2'', cls = StrategicPlayer\<rparr>), turn = 0\<rparr>
   \<and> (\<exists>r g' evs.
        play \<lparr>goal = 7, min_step = 3, max_step = 3, current = 0,
             players = (\<lparr>name = ''p1'', cls = StrategicPlayer\<rparr>,
                        \<lparr>name = ''p2'', cls = StrategicPlayer\<rparr>), turn = 0\<rparr>
          \<lparr>stdin = sconst EndOfInput, rng = sconst 0, stdout = []\<rparr>
          = Some (r, g', \<lparr>stdin = sconst EndOfInput, rng = sconst 0, stdout = evs\<rparr>)
        \<and> play \<lparr>goal = 7, min_step = 3, max_step = 3, current = 0,
             players = (\<lparr>name = ''p1'', cls = StrategicPlayer\<rparr>,
                        \<lparr>name = ''p2'', cls = StrategicPlayer\<rparr>), turn = 0\<rparr>
          \<lparr>stdin = Parses 4 ## sconst Malformed, rng = sconst 5, stdout = [InvalidMove]\<rparr>
          = Some (r, g', \<lparr>stdin = Parses 4 ## sconst Malformed, rng = sconst 5,
                          stdout = InvalidMove # evs\<rparr>))"
proof -
  let ?p0 = "\<lparr>name = ''p1'', cls = StrategicPlayer\<rparr>"
  let ?p1 = "\<lparr>name = ''p2'', cls = StrategicPlayer\<rparr>"
  let ?g0 = "\<lparr>goal = 7, min_step = 3, max_step = 3, current = 0, players = (?p0, ?p1), turn = 0\<rparr>"
  let ?w1 = "\<lparr>stdin = sconst EndOfInput, rng = sconst 0, stdout = []\<rparr>"
  let ?w2 = "\<lparr>stdin = Parses 4 ## sconst Malformed, rng = sconst 5, stdout = [InvalidMove]\<rparr>"
  have v: "valid_config 7 3 3" by (simp add: valid_config_def)
  have d0: "deterministic ?p0" and d1: "deterministic ?p1" by (simp_all add: deterministic_def)
  have i: "NumberGame_init 7 3 3 (?p0, ?p1) = Inr ?g0" by (simp add: NumberGame_init_def)
  from play_twice_identical[OF v d0 d1 i i, where ?w1.0 = ?w1 and ?w2.0 = ?w2]
  obtain r g' evs where
    a: "play ?g0 ?w1 = Some (r, g', ?w1\<lparr>stdout := stdout ?w1 @ evs\<rparr>)"
    and b: "play ?g0 ?w2 = Some (r, g', ?w2\<lparr>stdout := stdout ?w2 @ evs\<rparr>)"
    by (elim exE conjE) (rule that)
  from a have a': "play ?g0 ?w1
      = Some (r, g', \<lparr>stdin = sconst EndOfInput, rng = sconst 0, stdout = evs\<rparr>)" by simp
  from b have b': "play ?g0 ?w2
      = Some (r, g', \<lparr>stdin = Parses 4 ## sconst Malformed, rng = sconst 5,
                      stdout = InvalidMove # evs\<rparr>)" by simp
  have "\<exists>r g' evs. play ?g0 ?w1
          = Some (r, g', \<lparr>stdin = sconst EndOfInput, rng = sconst 0, stdout = evs\<rparr>)
        \<and> play ?g0 ?w2
          = Some (r, g', \<lparr>stdin = Parses 4 ## sconst Malformed, rng = sconst 5,
                          stdout = InvalidMove # evs\<rparr>)"
    using a' b' by (intro exI[of _ r] exI[of _ g'] exI[of _ evs] conjI)
  with v d0 d1 i show ?thesis by (intro conjI)
qed

end
